theory Spec2Isabelle
  imports Main "HOL-Library.Multiset"
begin

section \<open>Python values used by the password generator\<close>

text \<open>
  The exceptions that \<^verbatim>\<open>main.py\<close> and the library calls it makes can raise. Each
  carries its message, as the Python exception object does. Both \<^verbatim>\<open>raise\<close>
  statements of \<^verbatim>\<open>generate_password\<close> construct a \<^verbatim>\<open>ValueError\<close>.
\<close>

datatype py_exception = ValueError string | IndexError string | KeyError string

text \<open>The class of an exception object: what an \<^verbatim>\<open>except\<close> clause matches on.\<close>

datatype py_exception_class = ValueError_class | IndexError_class | KeyError_class

fun exception_class :: "py_exception \<Rightarrow> py_exception_class" where
  "exception_class (ValueError msg) = ValueError_class"
| "exception_class (IndexError msg) = IndexError_class"
| "exception_class (KeyError msg) = KeyError_class"

text \<open>
  A Python \<^verbatim>\<open>dict\<close> keeps its keys in insertion order, and \<^verbatim>\<open>classes.values()\<close> is
  read in that order, so the dictionary is an association list. \<^verbatim>\<open>d[k] = v\<close>
  overwrites the value of a key already present, in place, and appends a new key.
\<close>

type_synonym ('k, 'v) dict = "('k \<times> 'v) list"

fun dict_setitem :: "'k \<Rightarrow> 'v \<Rightarrow> ('k, 'v) dict \<Rightarrow> ('k, 'v) dict" where
  "dict_setitem k v [] = [(k, v)]"
| "dict_setitem k v ((k', v') # d) =
     (if k' = k then (k', v) # d else (k', v') # dict_setitem k v d)"

fun dict_getitem :: "('k, 'v) dict \<Rightarrow> 'k \<Rightarrow> 'v option" where
  "dict_getitem [] k = None"
| "dict_getitem ((k', v') # d) k = (if k' = k then Some v' else dict_getitem d k)"

definition dict_values :: "('k, 'v) dict \<Rightarrow> 'v list" where
  "dict_values d = map snd d"

definition dict_len :: "('k, 'v) dict \<Rightarrow> nat" where
  "dict_len d = length d"

text \<open>The constants of Python's \<^verbatim>\<open>string\<close> module that the program reads.\<close>

definition ascii_lowercase :: string where
  "ascii_lowercase = ''abcdefghijklmnopqrstuvwxyz''"

definition ascii_uppercase :: string where
  "ascii_uppercase = ''ABCDEFGHIJKLMNOPQRSTUVWXYZ''"

definition digits :: string where
  "digits = ''0123456789''"

text \<open>\<^verbatim>\<open>str(n)\<close> for a non-negative integer, as the f-string of the second error formats it.\<close>

fun str_nat :: "nat \<Rightarrow> string" where
  "str_nat n =
     (if n < 10 then [''0123456789'' ! n]
      else str_nat (n div 10) @ [''0123456789'' ! (n mod 10)])"

declare str_nat.simps [simp del]

section \<open>The character-set builder\<close>

text \<open>
  \<^verbatim>\<open>build_charset\<close>: \<^verbatim>\<open>classes\<close> and \<^verbatim>\<open>pool\<close> start empty and each enabled flag
  stores its class and extends the pool. The symbols branch reads the pool's
  extension back from the dictionary (\<^verbatim>\<open>pool += classes["symbols"]\<close>), a lookup
  that would raise \<^verbatim>\<open>KeyError\<close> on a missing key.
\<close>

definition build_charset ::
  "bool \<Rightarrow> bool \<Rightarrow> bool \<Rightarrow> bool \<Rightarrow> py_exception + ((string, string) dict \<times> string)" where
  "build_charset use_lower use_upper use_digits use_symbols =
     (let classes = [];
          pool = [];
          (classes, pool) =
            (if use_lower
             then (dict_setitem ''lower'' ascii_lowercase classes, pool @ ascii_lowercase)
             else (classes, pool));
          (classes, pool) =
            (if use_upper
             then (dict_setitem ''upper'' ascii_uppercase classes, pool @ ascii_uppercase)
             else (classes, pool));
          (classes, pool) =
            (if use_digits
             then (dict_setitem ''digits'' digits classes, pool @ digits)
             else (classes, pool))
      in if use_symbols
         then (let classes = dict_setitem ''symbols'' ''!@#$%^&*()-_=+[]{};:,.<>/?'' classes
               in case dict_getitem classes ''symbols'' of
                    None \<Rightarrow> Inl (KeyError ''symbols'')
                  | Some symbols \<Rightarrow> Inr (classes, pool @ symbols))
         else Inr (classes, pool))"

text \<open>
  A call that may leave arguments out: every parameter of \<^verbatim>\<open>build_charset\<close> is
  declared with the default \<^verbatim>\<open>True\<close>; \<open>None\<close> is an omitted argument.
\<close>

definition build_charset_call ::
  "bool option \<Rightarrow> bool option \<Rightarrow> bool option \<Rightarrow> bool option
     \<Rightarrow> py_exception + ((string, string) dict \<times> string)" where
  "build_charset_call use_lower use_upper use_digits use_symbols =
     build_charset
       (case use_lower of None \<Rightarrow> True | Some b \<Rightarrow> b)
       (case use_upper of None \<Rightarrow> True | Some b \<Rightarrow> b)
       (case use_digits of None \<Rightarrow> True | Some b \<Rightarrow> b)
       (case use_symbols of None \<Rightarrow> True | Some b \<Rightarrow> b)"

section \<open>The random source\<close>

text \<open>
  \<^verbatim>\<open>secrets.choice\<close> and \<^verbatim>\<open>_sysrand.shuffle\<close> both draw from the operating system's
  entropy through \<^verbatim>\<open>SystemRandom._randbelow\<close>. The entropy is an input of the model:
  an infinite sequence of raw values and a cursor to the next unread one. A draw
  below \<open>n\<close> reads one raw value and reduces it to an index in \<open>{0..<n}\<close>; every index
  in that range is the result for some raw value, so a statement for all sources is a
  statement for every outcome of the draws.
\<close>

record sysrand =
  source :: "nat \<Rightarrow> nat"
  cursor :: nat

definition randbelow :: "nat \<Rightarrow> sysrand \<Rightarrow> nat \<times> sysrand" where
  "randbelow n st = (source st (cursor st) mod n, st\<lparr>cursor := Suc (cursor st)\<rparr>)"

text \<open>
  \<^verbatim>\<open>secrets.choice(seq)\<close> is \<^verbatim>\<open>SystemRandom.choice\<close>: IndexError on an empty sequence,
  \<^verbatim>\<open>seq[randbelow(len(seq))]\<close> otherwise.
\<close>

definition secrets_choice :: "'a list \<Rightarrow> sysrand \<Rightarrow> py_exception + ('a \<times> sysrand)" where
  "secrets_choice seq st =
     (if seq = [] then Inl (IndexError ''Cannot choose from an empty sequence'')
      else (let (i, st') = randbelow (length seq) st in Inr (seq ! i, st')))"

text \<open>
  The list comprehension \<^verbatim>\<open>[secrets.choice(chars) for chars in seqs]\<close>: one draw for each
  sequence, left to right; the first exception ends it.
\<close>

fun choice_for_each :: "'a list list \<Rightarrow> sysrand \<Rightarrow> py_exception + ('a list \<times> sysrand)" where
  "choice_for_each [] st = Inr ([], st)"
| "choice_for_each (chars # rest) st =
     (case secrets_choice chars st of
        Inl e \<Rightarrow> Inl e
      | Inr (c, st1) \<Rightarrow>
          (case choice_for_each rest st1 of
             Inl e \<Rightarrow> Inl e
           | Inr (cs, st2) \<Rightarrow> Inr (c # cs, st2)))"

text \<open>
  \<^verbatim>\<open>random.shuffle\<close> (the method \<^verbatim>\<open>SystemRandom\<close> inherits): for \<open>i\<close> from
  \<open>len(x) - 1\<close> down to \<open>1\<close>, draw \<open>j\<close> below \<open>i + 1\<close> and swap \<open>x[i]\<close> with \<open>x[j]\<close>.
\<close>

fun shuffle_from :: "nat \<Rightarrow> 'a list \<Rightarrow> sysrand \<Rightarrow> 'a list \<times> sysrand" where
  "shuffle_from 0 x st = (x, st)"
| "shuffle_from (Suc k) x st =
     (let i = Suc k;
          (j, st') = randbelow (i + 1) st
      in shuffle_from k (x[i := x ! j, j := x ! i]) st')"

definition sysrand_shuffle :: "'a list \<Rightarrow> sysrand \<Rightarrow> 'a list \<times> sysrand" where
  "sysrand_shuffle x st = shuffle_from (length x - 1) x st"

section \<open>The password generator\<close>

text \<open>
  \<^verbatim>\<open>remaining = length - len(password_chars)\<close>, a Python integer that can be negative;
  \<^verbatim>\<open>range(remaining)\<close> is then empty.
\<close>

definition remaining :: "int \<Rightarrow> 'a list \<Rightarrow> int" where
  "remaining len password_chars = len - int (length password_chars)"

text \<open>
  \<^verbatim>\<open>generate_password(length, classes, pool)\<close>. The characters are of any type: the
  function only draws, moves and joins them. The result is the exception raised or the
  password, with the random source as the call leaves it.
\<close>

definition generate_password ::
  "int \<Rightarrow> ('k, 'c list) dict \<Rightarrow> 'c list \<Rightarrow> sysrand \<Rightarrow> py_exception + ('c list \<times> sysrand)" where
  "generate_password len classes pool st =
     (if pool = [] then
        Inl (ValueError ''Character pool is empty. Enable at least one character type.'')
      else if len < int (dict_len classes) then
        Inl (ValueError (''Length must be at least '' @ str_nat (dict_len classes)
                           @ '' to include one of each selected type.''))
      else
        (case choice_for_each (dict_values classes) st of
           Inl e \<Rightarrow> Inl e
         | Inr (password_chars, st1) \<Rightarrow>
             (case choice_for_each (replicate (nat (remaining len password_chars)) pool) st1 of
                Inl e \<Rightarrow> Inl e
              | Inr (filler, st2) \<Rightarrow> Inr (sysrand_shuffle (password_chars @ filler) st2))))"

text \<open>A fixed random source for running the model: the raw values \<open>0, 1, 2, \<dots>\<close>.\<close>

definition counting_source :: sysrand where
  "counting_source = \<lparr>source = id, cursor = 0\<rparr>"

text \<open>
  What a caller's \<^verbatim>\<open>except\<close> clause sees of a call: the class of the exception it
  raised, or nothing when it returned.
\<close>

fun raised_class :: "py_exception + 'a \<Rightarrow> py_exception_class option" where
  "raised_class (Inl e) = Some (exception_class e)"
| "raised_class (Inr v) = None"

section \<open>The builder's result in closed form\<close>

lemma build_charset_eq:
  "build_charset use_lower use_upper use_digits use_symbols =
     Inr ((if use_lower then [(''lower'', ascii_lowercase)] else []) @
          (if use_upper then [(''upper'', ascii_uppercase)] else []) @
          (if use_digits then [(''digits'', digits)] else []) @
          (if use_symbols then [(''symbols'', ''!@#$%^&*()-_=+[]{};:,.<>/?'')] else []),
          (if use_lower then ascii_lowercase else []) @
          (if use_upper then ascii_uppercase else []) @
          (if use_digits then digits else []) @
          (if use_symbols then ''!@#$%^&*()-_=+[]{};:,.<>/?'' else []))"
  by (cases use_lower; cases use_upper; cases use_digits; cases use_symbols;
      simp add: build_charset_def)

lemma ascii_lowercase_range: "ascii_lowercase = map char_of [97..<123::nat]"
  unfolding ascii_lowercase_def by code_simp

lemma ascii_uppercase_range: "ascii_uppercase = map char_of [65..<91::nat]"
  unfolding ascii_uppercase_def by code_simp

lemma digits_range: "digits = map char_of [48..<58::nat]"
  unfolding digits_def by code_simp

section \<open>Draws and the shuffle\<close>

lemma randbelow_less: "0 < n \<Longrightarrow> randbelow n st = (i, st') \<Longrightarrow> i < n"
  by (auto simp: randbelow_def)

lemma secrets_choice_member:
  "secrets_choice seq st = Inr (c, st') \<Longrightarrow> c \<in> set seq"
  by (auto simp: secrets_choice_def randbelow_def split: if_splits)

lemma secrets_choice_nonempty:
  "seq \<noteq> [] \<Longrightarrow> \<exists>c st'. secrets_choice seq st = Inr (c, st')"
  by (simp add: secrets_choice_def randbelow_def)

lemma secrets_choice_raises:
  "secrets_choice seq st = Inl e \<Longrightarrow> seq = [] \<and> exception_class e = IndexError_class"
  by (auto simp: secrets_choice_def randbelow_def split: if_splits)

text \<open>Every character a comprehension draws comes from the sequence at its position.\<close>

lemma choice_for_each_drawn:
  "choice_for_each seqs st = Inr (cs, st') \<Longrightarrow> list_all2 (\<lambda>c seq. c \<in> set seq) cs seqs"
proof (induction seqs arbitrary: st cs)
  case Nil
  then show ?case by simp
next
  case (Cons chars rest)
  from Cons.prems obtain c st1 cs' where
    first: "secrets_choice chars st = Inr (c, st1)" and
    others: "choice_for_each rest st1 = Inr (cs', st')" and
    cs: "cs = c # cs'"
    by (auto split: sum.splits)
  from first have "c \<in> set chars" by (rule secrets_choice_member)
  moreover from others have "list_all2 (\<lambda>c seq. c \<in> set seq) cs' rest" by (rule Cons.IH)
  ultimately show ?case using cs by simp
qed

lemma choice_for_each_length:
  "choice_for_each seqs st = Inr (cs, st') \<Longrightarrow> length cs = length seqs"
  by (drule choice_for_each_drawn) (rule list_all2_lengthD)

lemma choice_for_each_replicate:
  assumes "choice_for_each (replicate n pool) st = Inr (cs, st')"
  shows "set cs \<subseteq> set pool"
proof -
  from assms have "list_all2 (\<lambda>c seq. c \<in> set seq) cs (replicate n pool)"
    by (rule choice_for_each_drawn)
  then show ?thesis
    by (auto simp: list_all2_conv_all_nth in_set_conv_nth)
qed

text \<open>The comprehension returns when no sequence is empty, and raises only IndexError.\<close>

lemma choice_for_each_succeeds:
  "[] \<notin> set seqs \<Longrightarrow> \<exists>cs st'. choice_for_each seqs st = Inr (cs, st')"
proof (induction seqs arbitrary: st)
  case Nil
  then show ?case by simp
next
  case (Cons chars rest)
  then have "chars \<noteq> []" and rest: "[] \<notin> set rest" by auto
  then obtain c st1 where first: "secrets_choice chars st = Inr (c, st1)"
    using secrets_choice_nonempty by blast
  from Cons.IH [OF rest] obtain cs st2 where "choice_for_each rest st1 = Inr (cs, st2)"
    by blast
  with first show ?case by simp
qed

lemma choice_for_each_raises:
  "choice_for_each seqs st = Inl e \<Longrightarrow> [] \<in> set seqs \<and> exception_class e = IndexError_class"
proof (induction seqs arbitrary: st)
  case Nil
  then show ?case by simp
next
  case (Cons chars rest)
  show ?case
  proof (cases "secrets_choice chars st")
    case (Inl e')
    with Cons.prems have "e' = e" by simp
    with Inl secrets_choice_raises [of chars st e] show ?thesis by simp
  next
    case (Inr r)
    obtain c st1 where r: "r = (c, st1)" by (cases r)
    with Inr Cons.prems have "choice_for_each rest st1 = Inl e"
      by (auto split: sum.splits)
    from Cons.IH [OF this] show ?thesis by simp
  qed
qed

text \<open>The shuffle only swaps positions inside the list: it returns a permutation.\<close>

lemma shuffle_from_mset:
  "k < length x \<or> k = 0 \<Longrightarrow> mset (fst (shuffle_from k x st)) = mset x"
proof (induction k arbitrary: x st)
  case 0
  then show ?case by simp
next
  case (Suc k)
  then have len: "Suc k < length x" by simp
  obtain j st' where draw: "randbelow (Suc k + 1) st = (j, st')"
    by (cases "randbelow (Suc k + 1) st")
  then have "j < Suc k + 1" using randbelow_less [of "Suc k + 1" st j st'] by simp
  with len have j: "j < length x" by simp
  let ?x' = "x[Suc k := x ! j, j := x ! Suc k]"
  have "mset ?x' = mset x" using j len by (rule mset_swap)
  moreover have "mset (fst (shuffle_from k ?x' st')) = mset ?x'"
    using len by (intro Suc.IH) simp
  ultimately show ?case using draw by simp
qed

lemma sysrand_shuffle_mset: "mset (fst (sysrand_shuffle x st)) = mset x"
  unfolding sysrand_shuffle_def by (rule shuffle_from_mset) (cases x; simp)

section \<open>What a successful call of the generator returns\<close>

lemma generate_password_runs:
  assumes pool: "pool \<noteq> []"
    and len: "int (dict_len classes) \<le> len"
    and wf: "[] \<notin> set (dict_values classes)"
  shows "\<exists>password_chars filler st1 st2.
           choice_for_each (dict_values classes) st = Inr (password_chars, st1) \<and>
           choice_for_each (replicate (nat (remaining len password_chars)) pool) st1
             = Inr (filler, st2) \<and>
           generate_password len classes pool st
             = Inr (sysrand_shuffle (password_chars @ filler) st2)"
proof -
  from wf obtain password_chars st1 where
    mandatory: "choice_for_each (dict_values classes) st = Inr (password_chars, st1)"
    using choice_for_each_succeeds by blast
  from pool have "[] \<notin> set (replicate (nat (remaining len password_chars)) pool)"
    by auto
  then obtain filler st2 where
    rest: "choice_for_each (replicate (nat (remaining len password_chars)) pool) st1
             = Inr (filler, st2)"
    using choice_for_each_succeeds by blast
  from pool len mandatory rest
  have "generate_password len classes pool st
          = Inr (sysrand_shuffle (password_chars @ filler) st2)"
    by (simp add: generate_password_def)
  with mandatory rest show ?thesis by blast
qed

text \<open>
  The password is a permutation of the mandatory characters, one drawn from each class
  in order, followed by \<open>len - len(classes)\<close> characters of the pool.
\<close>

lemma generate_password_result:
  assumes pool: "pool \<noteq> []"
    and len: "int (dict_len classes) \<le> len"
    and wf: "[] \<notin> set (dict_values classes)"
  shows "\<exists>password_chars filler pw st'.
           generate_password len classes pool st = Inr (pw, st') \<and>
           mset pw = mset (password_chars @ filler) \<and>
           list_all2 (\<lambda>c chars. c \<in> set chars) password_chars (dict_values classes) \<and>
           int (length filler) = len - int (dict_len classes) \<and>
           set filler \<subseteq> set pool"
proof -
  from generate_password_runs [OF assms, of st] obtain password_chars filler st1 st2 where
    mandatory: "choice_for_each (dict_values classes) st = Inr (password_chars, st1)" and
    rest: "choice_for_each (replicate (nat (remaining len password_chars)) pool) st1
             = Inr (filler, st2)" and
    result: "generate_password len classes pool st
               = Inr (sysrand_shuffle (password_chars @ filler) st2)"
    by blast
  obtain pw st' where shuffled: "sysrand_shuffle (password_chars @ filler) st2 = (pw, st')"
    by (cases "sysrand_shuffle (password_chars @ filler) st2")
  have "mset pw = mset (password_chars @ filler)"
    using sysrand_shuffle_mset [of "password_chars @ filler" st2] shuffled by simp
  moreover have "list_all2 (\<lambda>c chars. c \<in> set chars) password_chars (dict_values classes)"
    using mandatory by (rule choice_for_each_drawn)
  moreover have "int (length filler) = len - int (dict_len classes)"
  proof -
    have "length password_chars = dict_len classes"
      using choice_for_each_length [OF mandatory] by (simp add: dict_values_def dict_len_def)
    moreover have "length filler = nat (remaining len password_chars)"
      using choice_for_each_length [OF rest] by simp
    ultimately show ?thesis using len by (simp add: remaining_def)
  qed
  moreover have "set filler \<subseteq> set pool"
    using rest by (rule choice_for_each_replicate)
  ultimately show ?thesis using result shuffled by auto
qed

section \<open>Sample runs\<close>

text \<open>
  One run on the classes lower and digits with the source \<open>0, 1, 2, \<dots>\<close>: the mandatory
  draws give \<open>a1\<close>, the pool draws \<open>cd\<close>, and the shuffle swaps positions 3 and 0,
  then 1 and 0.
\<close>

lemma sample_mandatory:
  "map_sum id fst
     (choice_for_each (dict_values [(''lower'', ascii_lowercase), (''digits'', digits)])
        counting_source)
   = Inr ''a1''"
  by code_simp

lemma sample_password:
  "map_sum id fst
     (generate_password 4 [(''lower'', ascii_lowercase), (''digits'', digits)]
        (ascii_lowercase @ digits) counting_source)
   = Inr ''1dca''"
  by code_simp

lemma sample_classes_wf:
  "ascii_lowercase @ digits \<noteq> [] \<and>
   int (dict_len [(''lower'', ascii_lowercase), (''digits'', digits)]) \<le> 4 \<and>
   [] \<notin> set (dict_values [(''lower'', ascii_lowercase), (''digits'', digits)])"
  by (simp add: dict_len_def dict_values_def ascii_lowercase_def digits_def)

section \<open>The character-set builder: claims\<close>

text \<open>
  C3. For every combination of the four flags, \<^verbatim>\<open>build_charset\<close> returns the enabled
  classes and no others, in the order lower, upper, digits, symbols; lower is the 26
  characters \<open>a\<close> to \<open>z\<close> (codes 97 to 122), upper the 26 characters \<open>A\<close> to \<open>Z\<close>
  (codes 65 to 90), digits the 10 characters \<open>0\<close> to \<open>9\<close> (codes 48 to 57), symbols
  the 26-character literal; and the pool is the concatenation of the returned class
  strings in that order.
\<close>

theorem build_charset_classes_and_pool:
  "(let lower = ''abcdefghijklmnopqrstuvwxyz'';
        upper = ''ABCDEFGHIJKLMNOPQRSTUVWXYZ'';
        digs = ''0123456789'';
        symbols = ''!@#$%^&*()-_=+[]{};:,.<>/?'';
        classes = (if use_lower then [(''lower'', lower)] else []) @
                  (if use_upper then [(''upper'', upper)] else []) @
                  (if use_digits then [(''digits'', digs)] else []) @
                  (if use_symbols then [(''symbols'', symbols)] else [])
    in build_charset use_lower use_upper use_digits use_symbols
         = Inr (classes, concat (dict_values classes)) \<and>
       lower = map char_of [97..<123::nat] \<and> length lower = 26 \<and>
       upper = map char_of [65..<91::nat] \<and> length upper = 26 \<and>
       digs = map char_of [48..<58::nat] \<and> length digs = 10 \<and>
       length symbols = 26)"
proof -
  have "build_charset use_lower use_upper use_digits use_symbols =
     Inr ((if use_lower then [(''lower'', ''abcdefghijklmnopqrstuvwxyz'')] else []) @
          (if use_upper then [(''upper'', ''ABCDEFGHIJKLMNOPQRSTUVWXYZ'')] else []) @
          (if use_digits then [(''digits'', ''0123456789'')] else []) @
          (if use_symbols then [(''symbols'', ''!@#$%^&*()-_=+[]{};:,.<>/?'')] else []),
          concat (dict_values (
          (if use_lower then [(''lower'', ''abcdefghijklmnopqrstuvwxyz'')] else []) @
          (if use_upper then [(''upper'', ''ABCDEFGHIJKLMNOPQRSTUVWXYZ'')] else []) @
          (if use_digits then [(''digits'', ''0123456789'')] else []) @
          (if use_symbols then [(''symbols'', ''!@#$%^&*()-_=+[]{};:,.<>/?'')] else []))))"
    unfolding build_charset_eq dict_values_def ascii_lowercase_def ascii_uppercase_def digits_def
    by simp
  moreover have "''abcdefghijklmnopqrstuvwxyz'' = map char_of [97..<123::nat]"
    using ascii_lowercase_range by (simp only: ascii_lowercase_def)
  moreover have "''ABCDEFGHIJKLMNOPQRSTUVWXYZ'' = map char_of [65..<91::nat]"
    using ascii_uppercase_range by (simp only: ascii_uppercase_def)
  moreover have "''0123456789'' = map char_of [48..<58::nat]"
    using digits_range by (simp only: digits_def)
  ultimately show ?thesis
    unfolding Let_def by simp
qed

text \<open>
  C7. For every combination of the four flags, the pool \<^verbatim>\<open>build_charset\<close> returns is
  non-empty exactly when the returned dictionary of classes is non-empty, and no class
  string stored in the dictionary is empty.
\<close>

theorem build_charset_nonempty_invariant:
  "\<exists>classes pool.
     build_charset use_lower use_upper use_digits use_symbols = Inr (classes, pool) \<and>
     (pool \<noteq> [] \<longleftrightarrow> classes \<noteq> []) \<and>
     [] \<notin> set (dict_values classes)"
  unfolding build_charset_eq
  by (simp add: dict_values_def ascii_lowercase_def ascii_uppercase_def digits_def)

text \<open>
  C10. Every flag parameter of \<^verbatim>\<open>build_charset\<close> defaults to \<^verbatim>\<open>True\<close>: the call with
  no arguments is the call with four \<^verbatim>\<open>True\<close>s, it stores all four classes, and its
  pool has 26 + 26 + 10 + 26 = 88 characters.
\<close>

theorem build_charset_defaults:
  "build_charset_call None None None None = build_charset True True True True \<and>
   (\<exists>classes pool.
      build_charset_call None None None None = Inr (classes, pool) \<and>
      map fst classes = [''lower'', ''upper'', ''digits'', ''symbols''] \<and>
      length pool = 88)"
  unfolding build_charset_call_def build_charset_eq
  by (simp add: ascii_lowercase_def ascii_uppercase_def digits_def)

section \<open>The password generator: returned passwords\<close>

text \<open>
  In the theorems of this section \<open>classes\<close> is a ClassSet of the specification's data
  model, whose values are non-empty character classes: \<open>[] \<notin> set (dict_values classes)\<close>.
  \<^verbatim>\<open>build_charset\<close> returns no other dictionary (claim C7).
\<close>

text \<open>
  C1. For a non-empty pool, a ClassSet and a length of at least the number of classes,
  \<^verbatim>\<open>generate_password\<close> returns a password, whatever the random draws are, and the
  password contains at least one character of every class of the ClassSet.
\<close>

theorem generate_password_covers_every_class:
  assumes "pool \<noteq> []"
    and "int (dict_len classes) \<le> len"
    and "[] \<notin> set (dict_values classes)"
  shows "\<exists>pw st'. generate_password len classes pool st = Inr (pw, st') \<and>
           (\<forall>chars \<in> set (dict_values classes). \<exists>c \<in> set pw. c \<in> set chars)"
proof -
  from generate_password_result [OF assms, of st] obtain password_chars filler pw st' where
    result: "generate_password len classes pool st = Inr (pw, st')" and
    perm: "mset pw = mset (password_chars @ filler)" and
    drawn: "list_all2 (\<lambda>c chars. c \<in> set chars) password_chars (dict_values classes)"
    by blast
  from perm have elems: "set pw = set password_chars \<union> set filler"
    by (metis mset_eq_setD set_append)
  have "\<exists>c \<in> set pw. c \<in> set chars" if "chars \<in> set (dict_values classes)" for chars
  proof -
    from that obtain i where i: "i < length (dict_values classes)"
      and chars: "dict_values classes ! i = chars"
      by (auto simp: in_set_conv_nth)
    from drawn i chars have "password_chars ! i \<in> set chars"
      by (auto simp: list_all2_conv_all_nth)
    moreover from drawn i have "password_chars ! i \<in> set password_chars"
      by (simp add: list_all2_lengthD)
    ultimately show ?thesis using elems by blast
  qed
  with result show ?thesis by blast
qed

theorem generate_password_covers_every_class_witness:
  "ascii_lowercase @ digits \<noteq> [] \<and>
   int (dict_len [(''lower'', ascii_lowercase), (''digits'', digits)]) \<le> 4 \<and>
   [] \<notin> set (dict_values [(''lower'', ascii_lowercase), (''digits'', digits)]) \<and>
   map_sum id fst
     (generate_password 4 [(''lower'', ascii_lowercase), (''digits'', digits)]
        (ascii_lowercase @ digits) counting_source) = Inr ''1dca'' \<and>
   (\<exists>pw st'.
      generate_password 4 [(''lower'', ascii_lowercase), (''digits'', digits)]
          (ascii_lowercase @ digits) counting_source = Inr (pw, st') \<and>
      (\<forall>chars \<in> set (dict_values [(''lower'', ascii_lowercase), (''digits'', digits)]).
         \<exists>c \<in> set pw. c \<in> set chars))"
proof -
  note wf = sample_classes_wf
  from wf have h1: "ascii_lowercase @ digits \<noteq> []"
    and h2: "int (dict_len [(''lower'', ascii_lowercase), (''digits'', digits)]) \<le> 4"
    and h3: "[] \<notin> set (dict_values [(''lower'', ascii_lowercase), (''digits'', digits)])"
    by blast+
  from generate_password_covers_every_class [OF h1 h2 h3, of counting_source]
    wf sample_password
  show ?thesis by blast
qed

text \<open>
  C2. For a non-empty pool, a ClassSet and a length of at least the number of classes,
  \<^verbatim>\<open>generate_password\<close> returns a string of exactly \<open>length\<close> characters.
\<close>

theorem generate_password_length:
  assumes "pool \<noteq> []"
    and "int (dict_len classes) \<le> len"
    and "[] \<notin> set (dict_values classes)"
  shows "\<exists>pw st'. generate_password len classes pool st = Inr (pw, st') \<and>
           int (length pw) = len"
proof -
  from generate_password_result [OF assms, of st] obtain password_chars filler pw st' where
    result: "generate_password len classes pool st = Inr (pw, st')" and
    perm: "mset pw = mset (password_chars @ filler)" and
    drawn: "list_all2 (\<lambda>c chars. c \<in> set chars) password_chars (dict_values classes)" and
    filler: "int (length filler) = len - int (dict_len classes)"
    by blast
  from perm have "length pw = length password_chars + length filler"
    by (metis length_append mset_eq_length)
  moreover from drawn have "length password_chars = dict_len classes"
    by (simp add: list_all2_lengthD dict_values_def dict_len_def)
  ultimately have "int (length pw) = len" using filler by simp
  with result show ?thesis by blast
qed

theorem generate_password_length_witness:
  "ascii_lowercase @ digits \<noteq> [] \<and>
   int (dict_len [(''lower'', ascii_lowercase), (''digits'', digits)]) \<le> 4 \<and>
   [] \<notin> set (dict_values [(''lower'', ascii_lowercase), (''digits'', digits)]) \<and>
   map_sum id fst
     (generate_password 4 [(''lower'', ascii_lowercase), (''digits'', digits)]
        (ascii_lowercase @ digits) counting_source) = Inr ''1dca'' \<and>
   (\<exists>pw st'.
      generate_password 4 [(''lower'', ascii_lowercase), (''digits'', digits)]
          (ascii_lowercase @ digits) counting_source = Inr (pw, st') \<and>
      int (length pw) = 4)"
proof -
  note wf = sample_classes_wf
  from wf have h1: "ascii_lowercase @ digits \<noteq> []"
    and h2: "int (dict_len [(''lower'', ascii_lowercase), (''digits'', digits)]) \<le> 4"
    and h3: "[] \<notin> set (dict_values [(''lower'', ascii_lowercase), (''digits'', digits)])"
    by blast+
  from generate_password_length [OF h1 h2 h3, of counting_source] wf sample_password
  show ?thesis by blast
qed

text \<open>
  C6. For a ClassSet, the pool that is the concatenation of its class strings (as
  \<^verbatim>\<open>build_charset\<close> returns it), and a length of at least the number of classes, every
  character of the password \<^verbatim>\<open>generate_password\<close> returns is a member of the pool.
\<close>

theorem generate_password_chars_in_pool:
  assumes "pool \<noteq> []"
    and "int (dict_len classes) \<le> len"
    and "[] \<notin> set (dict_values classes)"
    and concat: "pool = concat (dict_values classes)"
  shows "\<exists>pw st'. generate_password len classes pool st = Inr (pw, st') \<and>
           set pw \<subseteq> set pool"
proof -
  from generate_password_result [OF assms(1-3), of st] obtain password_chars filler pw st' where
    result: "generate_password len classes pool st = Inr (pw, st')" and
    perm: "mset pw = mset (password_chars @ filler)" and
    drawn: "list_all2 (\<lambda>c chars. c \<in> set chars) password_chars (dict_values classes)" and
    filler: "set filler \<subseteq> set pool"
    by blast
  from perm have elems: "set pw = set password_chars \<union> set filler"
    by (metis mset_eq_setD set_append)
  have "c \<in> set pool" if "c \<in> set password_chars" for c
  proof -
    from that obtain i where i: "i < length password_chars" and c: "password_chars ! i = c"
      by (auto simp: in_set_conv_nth)
    from drawn i c have "c \<in> set (dict_values classes ! i)"
      by (auto simp: list_all2_conv_all_nth)
    moreover from drawn i have "dict_values classes ! i \<in> set (dict_values classes)"
      by (simp add: list_all2_lengthD)
    ultimately show ?thesis using concat by auto
  qed
  with filler elems have "set pw \<subseteq> set pool" by blast
  with result show ?thesis by blast
qed

theorem generate_password_chars_in_pool_witness:
  "build_charset True False True False
     = Inr ([(''lower'', ascii_lowercase), (''digits'', digits)], ascii_lowercase @ digits) \<and>
   ascii_lowercase @ digits \<noteq> [] \<and>
   int (dict_len [(''lower'', ascii_lowercase), (''digits'', digits)]) \<le> 4 \<and>
   [] \<notin> set (dict_values [(''lower'', ascii_lowercase), (''digits'', digits)]) \<and>
   ascii_lowercase @ digits
     = concat (dict_values [(''lower'', ascii_lowercase), (''digits'', digits)]) \<and>
   map_sum id fst
     (generate_password 4 [(''lower'', ascii_lowercase), (''digits'', digits)]
        (ascii_lowercase @ digits) counting_source) = Inr ''1dca'' \<and>
   (\<exists>pw st'.
      generate_password 4 [(''lower'', ascii_lowercase), (''digits'', digits)]
          (ascii_lowercase @ digits) counting_source = Inr (pw, st') \<and>
      set pw \<subseteq> set (ascii_lowercase @ digits))"
proof -
  note wf = sample_classes_wf
  from wf have h1: "ascii_lowercase @ digits \<noteq> []"
    and h2: "int (dict_len [(''lower'', ascii_lowercase), (''digits'', digits)]) \<le> 4"
    and h3: "[] \<notin> set (dict_values [(''lower'', ascii_lowercase), (''digits'', digits)])"
    by blast+
  have h4: "ascii_lowercase @ digits
              = concat (dict_values [(''lower'', ascii_lowercase), (''digits'', digits)])"
    by (simp add: dict_values_def)
  have built: "build_charset True False True False
     = Inr ([(''lower'', ascii_lowercase), (''digits'', digits)], ascii_lowercase @ digits)"
    by (simp add: build_charset_eq)
  from generate_password_chars_in_pool [OF h1 h2 h3 h4, of counting_source]
    wf h4 built sample_password
  show ?thesis by blast
qed

section \<open>The password generator: failures\<close>

text \<open>
  C5. With an empty pool \<^verbatim>\<open>generate_password\<close> raises its first error (the
  specification's EmptyPoolError: the \<^verbatim>\<open>ValueError\<close> with the empty-pool message),
  whatever the length and the classes are; with a non-empty pool and a length below the
  number of classes it raises its second error (the specification's
  InsufficientLengthError: the \<^verbatim>\<open>ValueError\<close> whose message names the number of
  classes). The pool is checked first: when both conditions hold, the error is the
  first one and not the second.
\<close>

theorem generate_password_failure_conditions:
  "(pool = [] \<longrightarrow>
      generate_password len classes pool st
        = Inl (ValueError ''Character pool is empty. Enable at least one character type.'')) \<and>
   (pool \<noteq> [] \<and> len < int (dict_len classes) \<longrightarrow>
      generate_password len classes pool st
        = Inl (ValueError (''Length must be at least '' @ str_nat (dict_len classes)
                             @ '' to include one of each selected type.''))) \<and>
   (pool = [] \<and> len < int (dict_len classes) \<longrightarrow>
      generate_password len classes pool st
        \<noteq> Inl (ValueError (''Length must be at least '' @ str_nat (dict_len classes)
                             @ '' to include one of each selected type.'')))"
  by (simp add: generate_password_def)

theorem generate_password_failure_conditions_witness:
  "generate_password 12 ([] :: (string, string) dict) '''' counting_source
     = Inl (ValueError ''Character pool is empty. Enable at least one character type.'') \<and>
   (- 3 :: int) < int (dict_len [(''lower'', ''abc''), (''upper'', ''ABC'')]) \<and>
   generate_password (- 3) [(''lower'', ''abc''), (''upper'', ''ABC'')] '''' counting_source
     = Inl (ValueError ''Character pool is empty. Enable at least one character type.'') \<and>
   ''abcABC'' \<noteq> [] \<and>
   (1 :: int) < int (dict_len [(''lower'', ''abc''), (''upper'', ''ABC'')]) \<and>
   generate_password 1 [(''lower'', ''abc''), (''upper'', ''ABC'')] ''abcABC'' counting_source
     = Inl (ValueError ''Length must be at least 2 to include one of each selected type.'')"
  using generate_password_failure_conditions
      [of "''''" 12 "[] :: (string, string) dict" counting_source]
    generate_password_failure_conditions
      [of "''''" "- 3" "[(''lower'', ''abc''), (''upper'', ''ABC'')]" counting_source]
    generate_password_failure_conditions
      [of "''abcABC''" 1 "[(''lower'', ''abc''), (''upper'', ''ABC'')]" counting_source]
  by (simp add: dict_len_def str_nat.simps)

text \<open>
  C4, as the specification states it: the two failures are raised as two distinct error
  kinds. They are not: an empty pool and a too short length both raise \<^verbatim>\<open>ValueError\<close>,
  so the classes of the two exceptions are equal.
\<close>

theorem generate_password_error_kinds_counterexample:
  "raised_class (generate_password 12 ([] :: (string, string) dict) '''' counting_source)
     = Some ValueError_class \<and>
   raised_class (generate_password 1 [(''lower'', ''abc''), (''upper'', ''ABC'')] ''abcABC''
                   counting_source)
     = Some ValueError_class \<and>
   \<not> (raised_class (generate_password 12 ([] :: (string, string) dict) '''' counting_source)
        \<noteq> raised_class (generate_password 1 [(''lower'', ''abc''), (''upper'', ''ABC'')]
                           ''abcABC'' counting_source))"
  by (simp add: generate_password_def dict_len_def)

text \<open>
  C4, amended: both failures of \<^verbatim>\<open>generate_password\<close> are raised as the one exception
  class \<^verbatim>\<open>ValueError\<close>, and a caller tells them apart by the message alone: the message
  of the empty-pool failure is never the message of the too-short-length failure.
\<close>

theorem generate_password_failures_by_message:
  assumes "pool1 = []" and "pool2 \<noteq> []" and "len2 < int (dict_len classes2)"
  shows "\<exists>msg1 msg2.
           generate_password len1 classes1 pool1 st1 = Inl (ValueError msg1) \<and>
           generate_password len2 classes2 pool2 st2 = Inl (ValueError msg2) \<and>
           msg1 \<noteq> msg2"
  using assms by (simp add: generate_password_def)

theorem generate_password_failures_by_message_witness:
  "('''' :: string) = [] \<and> ''abcABC'' \<noteq> [] \<and>
   (1 :: int) < int (dict_len [(''lower'', ''abc''), (''upper'', ''ABC'')]) \<and>
   (\<exists>msg1 msg2.
      generate_password 12 ([] :: (string, string) dict) '''' counting_source
        = Inl (ValueError msg1) \<and>
      generate_password 1 [(''lower'', ''abc''), (''upper'', ''ABC'')] ''abcABC''
          counting_source
        = Inl (ValueError msg2) \<and>
      msg1 \<noteq> msg2)"
proof -
  have h1: "('''' :: string) = []" by simp
  have h2: "''abcABC'' \<noteq> []" by simp
  have h3: "(1 :: int) < int (dict_len [(''lower'', ''abc''), (''upper'', ''ABC'')])"
    by (simp add: dict_len_def)
  from generate_password_failures_by_message [OF h1 h2 h3] h1 h2 h3 show ?thesis by blast
qed

text \<open>
  C9. For a non-empty pool and a length of at least the number of classes, neither
  \<^verbatim>\<open>raise\<close> of \<^verbatim>\<open>generate_password\<close> is reached (no \<^verbatim>\<open>ValueError\<close> comes out of the
  call), the number of remaining pool draws is not negative, and, the class strings being
  non-empty as in every ClassSet, the call raises nothing at all: it returns a password.
\<close>

theorem generate_password_raises_nothing:
  assumes "pool \<noteq> []" and "int (dict_len classes) \<le> len"
  shows "(\<forall>msg. generate_password len classes pool st \<noteq> Inl (ValueError msg)) \<and>
         (\<forall>password_chars st1.
            choice_for_each (dict_values classes) st = Inr (password_chars, st1)
              \<longrightarrow> 0 \<le> remaining len password_chars) \<and>
         ([] \<notin> set (dict_values classes)
            \<longrightarrow> (\<exists>pw st'. generate_password len classes pool st = Inr (pw, st')))"
proof (intro conjI allI impI)
  fix msg
  show "generate_password len classes pool st \<noteq> Inl (ValueError msg)"
  proof
    assume raised: "generate_password len classes pool st = Inl (ValueError msg)"
    show False
    proof (cases "choice_for_each (dict_values classes) st")
      case (Inl e)
      with assms raised have "e = ValueError msg" by (simp add: generate_password_def)
      with choice_for_each_raises [OF Inl] show False by simp
    next
      case (Inr r)
      obtain password_chars st1 where r: "r = (password_chars, st1)" by (cases r)
      show False
      proof (cases "choice_for_each (replicate (nat (remaining len password_chars)) pool) st1")
        case (Inl e)
        with assms raised Inr r have "e = ValueError msg" by (simp add: generate_password_def)
        with choice_for_each_raises [OF Inl] show False by simp
      next
        case inner: (Inr r')
        with assms raised Inr r show False
          by (simp add: generate_password_def split: prod.splits)
      qed
    qed
  qed
next
  fix password_chars st1
  assume "choice_for_each (dict_values classes) st = Inr (password_chars, st1)"
  then have "length password_chars = dict_len classes"
    using choice_for_each_length by (fastforce simp: dict_values_def dict_len_def)
  with assms show "0 \<le> remaining len password_chars" by (simp add: remaining_def)
next
  assume "[] \<notin> set (dict_values classes)"
  with assms generate_password_result [of pool classes len st]
  show "\<exists>pw st'. generate_password len classes pool st = Inr (pw, st')" by blast
qed

theorem generate_password_raises_nothing_witness:
  "ascii_lowercase @ digits \<noteq> [] \<and>
   int (dict_len [(''lower'', ascii_lowercase), (''digits'', digits)]) \<le> 4 \<and>
   [] \<notin> set (dict_values [(''lower'', ascii_lowercase), (''digits'', digits)]) \<and>
   (\<exists>st1. choice_for_each (dict_values [(''lower'', ascii_lowercase), (''digits'', digits)])
             counting_source = Inr (''a1'', st1)) \<and>
   0 \<le> remaining 4 ''a1'' \<and>
   (\<forall>msg. generate_password 4 [(''lower'', ascii_lowercase), (''digits'', digits)]
            (ascii_lowercase @ digits) counting_source \<noteq> Inl (ValueError msg)) \<and>
   (\<exists>pw st'. generate_password 4 [(''lower'', ascii_lowercase), (''digits'', digits)]
               (ascii_lowercase @ digits) counting_source = Inr (pw, st'))"
proof -
  note wf = sample_classes_wf
  from wf have h1: "ascii_lowercase @ digits \<noteq> []"
    and h2: "int (dict_len [(''lower'', ascii_lowercase), (''digits'', digits)]) \<le> 4"
    and h3: "[] \<notin> set (dict_values [(''lower'', ascii_lowercase), (''digits'', digits)])"
    by blast+
  have drawn: "\<exists>st1. choice_for_each
                        (dict_values [(''lower'', ascii_lowercase), (''digits'', digits)])
                        counting_source = Inr (''a1'', st1)"
    using sample_mandatory
    by (cases "choice_for_each
                 (dict_values [(''lower'', ascii_lowercase), (''digits'', digits)])
                 counting_source") auto
  from generate_password_raises_nothing [OF h1 h2, of counting_source] wf drawn
  show ?thesis by blast
qed

end
